theory Spec2Isabelle
  imports Main "HOL-Library.Sublist"
begin

section \<open>Text\<close>

text \<open>
  Python's \<open>str\<close> is a sequence of code points. It is modelled by \<open>string\<close>, a \<open>char\<close>
  standing for the code point of the same number: the model covers the texts whose
  code points are below 256 (ASCII and the Latin-1 Supplement, which hold every letter
  of Portuguese; \<open>CHR 0xC7\<close> is the C with cedilla). On these \<open>str.lower()\<close> acts
  letter by letter: the uppercase letters are \<open>A\<close> to \<open>Z\<close> (65 to 90) and the code
  points 192 to 214 and 216 to 222, the lowercase form of each is 32 further on, and
  every other code point is kept.
\<close>

definition is_upper :: "char \<Rightarrow> bool" where
  "is_upper c =
     (let n = (of_char c :: nat)
      in (65 \<le> n \<and> n \<le> 90) \<or> (192 \<le> n \<and> n \<le> 214) \<or> (216 \<le> n \<and> n \<le> 222))"

definition lower_char :: "char \<Rightarrow> char" where
  "lower_char c = (if is_upper c then char_of ((of_char c :: nat) + 32) else c)"

definition lower :: "string \<Rightarrow> string" where
  "lower s = map lower_char s"

text \<open>\<open>pat in s\<close> for two strings: \<open>pat\<close> occurs in \<open>s\<close> as a contiguous run.\<close>

fun starts_with :: "string \<Rightarrow> string \<Rightarrow> bool" where
  "starts_with [] s = True"
| "starts_with (p # ps) [] = False"
| "starts_with (p # ps) (c # cs) = (p = c \<and> starts_with ps cs)"

fun substring :: "string \<Rightarrow> string \<Rightarrow> bool" where
  "substring pat [] = (pat = [])"
| "substring pat (c # cs) = (starts_with pat (c # cs) \<or> substring pat cs)"

text \<open>
  \<open>Series.str.contains(q, na=False)\<close> is called with its default \<open>regex=True\<close>: the
  query is compiled as a regular expression and searched in each value. A pattern
  without any of the special characters of the regular-expression syntax matches
  exactly where it occurs as a substring. For the other patterns the engine of the
  library, which is not part of the repository, is a parameter: it maps a pattern to
  its search predicate, or to nothing when the pattern does not compile (\<open>re.error\<close>).
\<close>

type_synonym regex_engine = "string \<rightharpoonup> (string \<Rightarrow> bool)"

definition re_special :: string where
  "re_special = ''.^$*+?{}[]|()'' @ [CHR 0x5C]"

definition re_compile :: "regex_engine \<Rightarrow> string \<Rightarrow> (string \<Rightarrow> bool) option" where
  "re_compile engine pat =
     (if list_ex (\<lambda>c. c \<in> set re_special) pat then engine pat
      else Some (substring pat))"

section \<open>Tables\<close>

text \<open>
  A \<open>DataFrame\<close> as the loader builds it (\<open>dtype=str\<close>): a list of column labels and
  an ordered list of rows; a cell is a text or the missing value \<open>NaN\<close>. A row gives
  a cell for every label; only the labels in \<open>columns\<close> belong to the table. The
  labels of a frame read by \<open>read_csv\<close> are distinct, so that \<open>df2[col]\<close> is one column.
\<close>

datatype cell = NaN | Txt string

type_synonym row = "string \<Rightarrow> cell"

record table =
  columns :: "string list"
  rows :: "row list"

text \<open>A row written as its list of (label, cell) pairs; other labels read \<open>NaN\<close>.\<close>

definition row_of :: "(string \<times> cell) list \<Rightarrow> row" where
  "row_of kvs = (\<lambda>c. case map_of kvs c of None \<Rightarrow> NaN | Some v \<Rightarrow> v)"

text \<open>\<open>df[col].tolist()\<close>\<close>

definition column_values :: "string \<Rightarrow> table \<Rightarrow> cell list" where
  "column_values col df = map (\<lambda>r. r col) (rows df)"

text \<open>
  What \<open>Series.astype(str)\<close> makes of a missing value depends on the pandas that is
  installed, and the repository names no version. On an object column of pandas 1.x
  and 2.x the missing value becomes the text \<open>nan\<close>; with the string dtype of pandas 3.x
  it stays missing. The behaviour is a parameter of the model, and a text stays as it
  is under both.
\<close>

datatype na_policy = Na_as_text | Na_stays

fun astype_str :: "na_policy \<Rightarrow> cell \<Rightarrow> cell" where
  "astype_str Na_as_text NaN = Txt ''nan''"
| "astype_str Na_stays NaN = NaN"
| "astype_str pd (Txt s) = Txt s"

text \<open>\<open>Series.str.lower()\<close>: a missing value stays missing.\<close>

fun str_lower :: "cell \<Rightarrow> cell" where
  "str_lower NaN = NaN"
| "str_lower (Txt s) = Txt (lower s)"

text \<open>\<open>df2[col] = df2[col].astype(str).str.lower()\<close>\<close>

definition lower_column :: "na_policy \<Rightarrow> string \<Rightarrow> table \<Rightarrow> table" where
  "lower_column pd col df2 =
     df2\<lparr>rows := map (\<lambda>r. r(col := str_lower (astype_str pd (r col)))) (rows df2)\<rparr>"

text \<open>\<open>df2[mask]\<close>: the rows whose mask entry is true, in their order.\<close>

definition select_rows :: "(row \<Rightarrow> bool) \<Rightarrow> table \<Rightarrow> table" where
  "select_rows keep df2 = df2\<lparr>rows := filter keep (rows df2)\<rparr>"

text \<open>\<open>DataFrame.empty\<close>: some axis has length 0.\<close>

definition df_empty :: "table \<Rightarrow> bool" where
  "df_empty df2 = (rows df2 = [] \<or> columns df2 = [])"

section \<open>Filter specification\<close>

text \<open>
  A constraint value is \<open>None\<close> or a text; a constraint is one value or a collection
  (\<open>list\<close>, \<open>tuple\<close>, \<open>set\<close>) of values. \<open>filtros\<close> is a dict, modelled by the list of
  its items in insertion order.
\<close>

datatype pyval = PyNone | PyStr string

fun py_str :: "pyval \<Rightarrow> string" where
  "py_str PyNone = ''None''"
| "py_str (PyStr s) = s"

datatype constraint = Single pyval | Many "pyval list"

type_synonym filtros = "(string \<times> constraint) list"

fun is_empty_filter :: "constraint \<Rightarrow> bool" where
  "is_empty_filter (Single PyNone) = True"
| "is_empty_filter (Many vs) = (vs = [])"
| "is_empty_filter (Single (PyStr s)) = (s = [])"

text \<open>
  The mask \<open>str.contains(q, na=False)\<close> on one cell: a missing value gives \<open>False\<close>.
  The comparisons \<open>==\<close> and \<open>isin\<close> with texts are false on a missing value as well,
  which the equality with a \<open>Txt\<close> cell expresses.
\<close>

fun contains_cell :: "(string \<Rightarrow> bool) \<Rightarrow> cell \<Rightarrow> bool" where
  "contains_cell m NaN = False"
| "contains_cell m (Txt s) = m s"

section \<open>\<open>filter_data\<close>\<close>

text \<open>Lines 78 to 87: normalise the column, then select by the normalised constraint.\<close>

definition apply_filter :: "na_policy \<Rightarrow> table \<Rightarrow> string \<Rightarrow> constraint \<Rightarrow> table" where
  "apply_filter pd df2 col val =
     (let df3 = lower_column pd col df2 in
      case val of
        Many vs \<Rightarrow>
          (let val_norm = map (\<lambda>v. lower (py_str v)) vs
           in select_rows (\<lambda>r. r col \<in> set (map Txt val_norm)) df3)
      | Single v \<Rightarrow>
          (let v_norm = lower (py_str v)
           in select_rows (\<lambda>r. r col = Txt v_norm) df3))"

text \<open>
  The loop over \<open>filtros.items()\<close> (lines 63 to 96). \<open>Returned\<close> is the early
  \<open>return df2\<close> of line 96, \<open>Fallthrough\<close> the table with which the loop ends.
\<close>

datatype loop_result = Returned table | Fallthrough table

fun filter_loop :: "na_policy \<Rightarrow> table \<Rightarrow> filtros \<Rightarrow> loop_result" where
  "filter_loop pd df2 [] = Fallthrough df2"
| "filter_loop pd df2 ((col, val) # rest) =
     (if is_empty_filter val then filter_loop pd df2 rest
      else if col \<notin> set (columns df2) then filter_loop pd df2 rest
      else (let df3 = apply_filter pd df2 col val
            in if df_empty df3 then Returned df3 else filter_loop pd df3 rest))"

datatype error = Regex_error string

text \<open>Python truthiness of an \<open>Optional[str]\<close>: \<open>None\<close> and \<open>""\<close> are false.\<close>

fun truthy :: "string option \<Rightarrow> bool" where
  "truthy None = False"
| "truthy (Some s) = (s \<noteq> [])"

text \<open>The optional text search (lines 99 to 111).\<close>

fun text_search ::
  "na_policy \<Rightarrow> regex_engine \<Rightarrow> table \<Rightarrow> string option \<Rightarrow> string option \<Rightarrow> bool
     \<Rightarrow> error + table" where
  "text_search pd engine df2 (Some column_for_search) (Some query) exact_match =
     (if truthy (Some column_for_search) \<and> truthy (Some query) then
        (if column_for_search \<in> set (columns df2) then
           (let q = lower query;
                df3 = lower_column pd column_for_search df2
            in if exact_match then
                 Inr (select_rows (\<lambda>r. r column_for_search = Txt q) df3)
               else
                 (case re_compile engine q of
                    None \<Rightarrow> Inl (Regex_error q)
                  | Some m \<Rightarrow>
                      Inr (select_rows (\<lambda>r. contains_cell m (r column_for_search)) df3)))
         else Inr df2)
      else Inr df2)"
| "text_search pd engine df2 column_for_search query exact_match = Inr df2"

text \<open>
  \<open>filter_data(df, filtros, column_for_search, query, exact_match)\<close>, with the two
  library behaviours as parameters. \<open>df.copy()\<close> is the table itself, since nothing
  here is mutated in place; \<open>filtros or {}\<close> reads a \<open>None\<close> as the empty dict. The
  \<open>debug\<close> flag only collects and prints row counts and is left out.
\<close>

fun filtros_or_empty :: "filtros option \<Rightarrow> filtros" where
  "filtros_or_empty None = []"
| "filtros_or_empty (Some d) = d"

definition filter_data ::
  "na_policy \<Rightarrow> regex_engine \<Rightarrow> table \<Rightarrow> filtros option \<Rightarrow> string option \<Rightarrow> string option
     \<Rightarrow> bool \<Rightarrow> error + table" where
  "filter_data pd engine df filtros column_for_search query exact_match =
     (case filter_loop pd df (filtros_or_empty filtros) of
        Returned df2 \<Rightarrow> Inr df2
      | Fallthrough df2 \<Rightarrow> text_search pd engine df2 column_for_search query exact_match)"

section \<open>Registry client\<close>

text \<open>
  \<open>str(n)\<close> of a non-negative integer, for the status code in the message.
  \<open>digit_char\<close> is only applied to numbers below 10.
\<close>

definition digit_char :: "nat \<Rightarrow> char" where
  "digit_char d = ''0123456789'' ! d"

fun str_nat :: "nat \<Rightarrow> string" where
  "str_nat n = (if n < 10 then [digit_char n] else str_nat (n div 10) @ [digit_char (n mod 10)])"

declare str_nat.simps [simp del]

text \<open>
  A decoded JSON value: what \<open>resp.json()\<close> returns. An integer literal gives an
  \<open>int\<close>, another finite number a \<open>float\<close>, here a mantissa and a decimal exponent.
  An object is the list of the items of the dict. \<open>json_truthy\<close> is Python's truth
  value of it, as \<open>if dados:\<close> tests it.
\<close>

datatype json =
  JNull | JBool bool | JInt int | JFloat int int | JStr string
  | JArr "json list" | JObj "(string \<times> json) list"

fun json_truthy :: "json \<Rightarrow> bool" where
  "json_truthy JNull = False"
| "json_truthy (JBool b) = b"
| "json_truthy (JInt n) = (n \<noteq> 0)"
| "json_truthy (JFloat m e) = (m \<noteq> 0)"
| "json_truthy (JStr s) = (s \<noteq> [])"
| "json_truthy (JArr xs) = (xs \<noteq> [])"
| "json_truthy (JObj kvs) = (kvs \<noteq> [])"

text \<open>
  What \<open>requests.get(url, timeout=10)\<close> does is the environment's choice, so the
  client is a parameter: it raises (time-out, network error; the text is that of the
  exception), or it answers with a status code and a body. The body is given by what
  \<open>resp.json()\<close> makes of it: the decoded value, or the text of the exception it
  raises on a body that is not JSON.
\<close>

datatype http_outcome = Transport_failure string | Response nat "string + json"

type_synonym http_client = "string \<Rightarrow> http_outcome"

datatype exn = Exception string

datatype ui_message = St_error string | St_info string

text \<open>
  \<open>get_cnpj_data\<close> (lines 160 to 168). The result is the exception that leaves the
  function or the value it returns, with the messages shown on the page.
\<close>

definition api_url :: "string \<Rightarrow> string" where
  "api_url cnpj = ''https://brasilapi.com.br/api/cnpj/v1/'' @ cnpj"

definition get_cnpj_data :: "http_client \<Rightarrow> string \<Rightarrow> (exn + json) \<times> ui_message list" where
  "get_cnpj_data http_get cnpj =
     (let url = api_url cnpj in
      case http_get url of
        Transport_failure e \<Rightarrow> (Inl (Exception e), [])
      | Response status_code body \<Rightarrow>
          if status_code = 200 then
            (case body of
               Inl e \<Rightarrow> (Inl (Exception e), [])
             | Inr dados \<Rightarrow> (Inr dados, []))
          else
            (Inr (JObj []),
             [St_error (''Erro ao consultar BrasilAPI: status '' @ str_nat status_code)]))"

text \<open>
  \<open>mostra_detalhes_cnpj\<close> (lines 170 to 276) draws the record. Only whether it raises
  is modelled: its first statement calls \<open>dados.get\<close>, which raises \<open>AttributeError\<close>
  when \<open>dados\<close> is not a dict; what the drawing of a dict does (streamlit calls, and a
  \<open>DataFrame\<close> built from the entry \<open>qsa\<close>) is the parameter \<open>draw\<close>, which gives the
  exception that leaves the function, if any.
\<close>

fun py_type_name :: "json \<Rightarrow> string" where
  "py_type_name JNull = ''NoneType''"
| "py_type_name (JBool b) = ''bool''"
| "py_type_name (JInt n) = ''int''"
| "py_type_name (JFloat m e) = ''float''"
| "py_type_name (JStr s) = ''str''"
| "py_type_name (JArr xs) = ''list''"
| "py_type_name (JObj kvs) = ''dict''"

definition attribute_error :: "json \<Rightarrow> string \<Rightarrow> exn" where
  "attribute_error obj name =
     Exception ([CHR 0x27] @ py_type_name obj @ [CHR 0x27] @ '' object has no attribute ''
                @ [CHR 0x27] @ name @ [CHR 0x27])"

definition mostra_detalhes_cnpj :: "(json \<Rightarrow> exn option) \<Rightarrow> json \<Rightarrow> exn option" where
  "mostra_detalhes_cnpj draw dados =
     (case dados of
        JObj kvs \<Rightarrow> draw dados
      | _ \<Rightarrow> Some (attribute_error dados ''get''))"

text \<open>
  The try statement of the call site (lines 355 to 359):
  \<open>try: dados = get_cnpj_data(cnpj_api)\<close> with \<open>except Exception as e\<close>, which shows
  the error and binds the empty dict. It always binds \<open>dados\<close>.
\<close>

definition try_get_cnpj_data :: "http_client \<Rightarrow> string \<Rightarrow> json \<times> ui_message list" where
  "try_get_cnpj_data http_get cnpj_api =
     (case get_cnpj_data http_get cnpj_api of
        (Inl (Exception e), shown) \<Rightarrow> (JObj [], shown @ [St_error (''Erro BrasilAPI: '' @ e)])
      | (Inr dados, shown) \<Rightarrow> (dados, shown))"

text \<open>
  The block of the call site (lines 353 to 363): under \<open>if cnpj_api\<close> the try
  statement, then \<open>if dados: mostra_detalhes_cnpj(dados)\<close>, which stands outside the
  try; otherwise a hint. The result is the exception that leaves the block, or the
  value of \<open>dados\<close> after it (none when no identifier is selected), with the messages
  shown. The spinner shown during the call is not modelled.
\<close>

definition brasilapi_block ::
  "(json \<Rightarrow> exn option) \<Rightarrow> http_client \<Rightarrow> string \<Rightarrow> (exn + json option) \<times> ui_message list" where
  "brasilapi_block draw http_get cnpj_api =
     (if cnpj_api \<noteq> [] then
        (case try_get_cnpj_data http_get cnpj_api of
           (dados, shown) \<Rightarrow>
             if json_truthy dados then
               (case mostra_detalhes_cnpj draw dados of
                  Some e \<Rightarrow> (Inl e, shown)
                | None \<Rightarrow> (Inr (Some dados), shown))
             else (Inr (Some dados), shown))
      else
        (Inr None,
         [St_info (''Selecione um CNPJ v'' @ [CHR 0xE1] @ ''lido para ver os detalhes.'')]))"

section \<open>Notions used to state the properties\<close>

text \<open>The table a loop result carries.\<close>

fun loop_table :: "loop_result \<Rightarrow> table" where
  "loop_table (Returned t) = t"
| "loop_table (Fallthrough t) = t"

text \<open>
  A row in which the cells of the columns \<open>cs\<close> are replaced as line 79 replaces them,
  and the columns that a call normalises: those of the filter entries that are neither
  empty nor about a missing column, and the search column when the search runs.
\<close>

definition normalise_row :: "na_policy \<Rightarrow> string set \<Rightarrow> row \<Rightarrow> row" where
  "normalise_row pd cs r = (\<lambda>c. if c \<in> cs then str_lower (astype_str pd (r c)) else r c)"

definition applied_columns :: "table \<Rightarrow> filtros \<Rightarrow> string list" where
  "applied_columns df fs =
     map fst (filter (\<lambda>(col, val). \<not> is_empty_filter val \<and> col \<in> set (columns df)) fs)"

fun searched_columns :: "table \<Rightarrow> string option \<Rightarrow> string option \<Rightarrow> string list" where
  "searched_columns df (Some c) (Some q) =
     (if c \<noteq> [] \<and> q \<noteq> [] \<and> c \<in> set (columns df) then [c] else [])"
| "searched_columns df c q = []"

definition normalised_columns ::
  "table \<Rightarrow> filtros option \<Rightarrow> string option \<Rightarrow> string option \<Rightarrow> string set" where
  "normalised_columns df filtros column_for_search query =
     set (applied_columns df (filtros_or_empty filtros))
       \<union> set (searched_columns df column_for_search query)"

text \<open>
  Case variants, defined from the alphabet and not from \<open>lower\<close>: the uppercase
  letters below code point 256 and, at the same positions, their lowercase forms. Two
  characters are the same letter when they are equal or the two forms of one letter;
  two texts are case variants when they are the same letters position by position;
  two constraints when they have the same shape and their values are case variants.
\<close>

definition upper_letters :: string where
  "upper_letters = ''ABCDEFGHIJKLMNOPQRSTUVWXYZ'' @
     [CHR 0xC0, CHR 0xC1, CHR 0xC2, CHR 0xC3, CHR 0xC4, CHR 0xC5, CHR 0xC6, CHR 0xC7,
      CHR 0xC8, CHR 0xC9, CHR 0xCA, CHR 0xCB, CHR 0xCC, CHR 0xCD, CHR 0xCE, CHR 0xCF,
      CHR 0xD0, CHR 0xD1, CHR 0xD2, CHR 0xD3, CHR 0xD4, CHR 0xD5, CHR 0xD6,
      CHR 0xD8, CHR 0xD9, CHR 0xDA, CHR 0xDB, CHR 0xDC, CHR 0xDD, CHR 0xDE]"

definition lower_letters :: string where
  "lower_letters = ''abcdefghijklmnopqrstuvwxyz'' @
     [CHR 0xE0, CHR 0xE1, CHR 0xE2, CHR 0xE3, CHR 0xE4, CHR 0xE5, CHR 0xE6, CHR 0xE7,
      CHR 0xE8, CHR 0xE9, CHR 0xEA, CHR 0xEB, CHR 0xEC, CHR 0xED, CHR 0xEE, CHR 0xEF,
      CHR 0xF0, CHR 0xF1, CHR 0xF2, CHR 0xF3, CHR 0xF4, CHR 0xF5, CHR 0xF6,
      CHR 0xF8, CHR 0xF9, CHR 0xFA, CHR 0xFB, CHR 0xFC, CHR 0xFD, CHR 0xFE]"

definition same_letter :: "char \<Rightarrow> char \<Rightarrow> bool" where
  "same_letter a b =
     (a = b \<or> (a, b) \<in> set (zip upper_letters lower_letters)
            \<or> (b, a) \<in> set (zip upper_letters lower_letters))"

fun value_variant :: "pyval \<Rightarrow> pyval \<Rightarrow> bool" where
  "value_variant (PyStr s) (PyStr s') = list_all2 same_letter s s'"
| "value_variant PyNone PyNone = True"
| "value_variant v v' = False"

fun case_variant :: "constraint \<Rightarrow> constraint \<Rightarrow> bool" where
  "case_variant (Single v) (Single v') = value_variant v v'"
| "case_variant (Many vs) (Many vs') = list_all2 value_variant vs vs'"
| "case_variant val val' = False"

text \<open>
  The matching rule in the specification's words, for a text: it matches a single
  value when their lowercase forms are equal, and a collection when its lowercase form
  is one of the collection's lowercase values. A missing value has no text of its
  own: where \<open>astype(str)\<close> keeps it missing it matches nothing, and where \<open>astype(str)\<close>
  makes the text \<open>nan\<close> of it, that text is matched.
\<close>

fun lowercase_match :: "string \<Rightarrow> constraint \<Rightarrow> bool" where
  "lowercase_match s (Single v) = (lower s = lower (py_str v))"
| "lowercase_match s (Many vs) = (lower s \<in> set (map (\<lambda>v. lower (py_str v)) vs))"

fun cell_matches :: "na_policy \<Rightarrow> cell \<Rightarrow> constraint \<Rightarrow> bool" where
  "cell_matches pd (Txt s) val = lowercase_match s val"
| "cell_matches Na_stays NaN val = False"
| "cell_matches Na_as_text NaN val = lowercase_match ''nan'' val"

section \<open>Example data\<close>

text \<open>The staff table of the specification's end-to-end scenario, and what the filter
  \<open>{SETOR: ["RH"]}\<close> returns for it.\<close>

definition staff :: table where
  "staff = \<lparr>columns = [''SETOR'', ''SIT''],
            rows = [row_of [(''SETOR'', Txt ''RH''), (''SIT'', Txt ''Ativo'')],
                    row_of [(''SETOR'', Txt ''TI''), (''SIT'', Txt ''Ativo'')],
                    row_of [(''SETOR'', Txt ''RH''), (''SIT'', Txt ''Inativo'')]]\<rparr>"

definition staff_rh :: table where
  "staff_rh = \<lparr>columns = [''SETOR'', ''SIT''],
               rows = [row_of [(''SETOR'', Txt ''rh''), (''SIT'', Txt ''Ativo'')],
                       row_of [(''SETOR'', Txt ''rh''), (''SIT'', Txt ''Inativo'')]]\<rparr>"

text \<open>A column with a missing value.\<close>

definition places :: table where
  "places = \<lparr>columns = [''NOME''],
             rows = [row_of [(''NOME'', Txt ''Brasil'')], row_of [(''NOME'', NaN)]]\<rparr>"

text \<open>
  A table whose first cell holds every uppercase letter, a digit, a multiplication
  sign (code point 215) and a sharp s (223), which have no other case; and the table
  that the filter by that text returns.
\<close>

definition letters :: table where
  "letters = \<lparr>columns = [''TEXTO'', ''N''],
              rows = [row_of [(''TEXTO'', Txt (upper_letters @ ''7'' @ [CHR 0xD7, CHR 0xDF])),
                              (''N'', Txt ''Um'')],
                      row_of [(''TEXTO'', NaN), (''N'', Txt ''Dois'')],
                      row_of [(''TEXTO'', Txt ''NaN''), (''N'', Txt ''Tres'')]]\<rparr>"

definition letters_found :: table where
  "letters_found = \<lparr>columns = [''TEXTO'', ''N''],
              rows = [row_of [(''TEXTO'', Txt (lower_letters @ ''7'' @ [CHR 0xD7, CHR 0xDF])),
                              (''N'', Txt ''Um'')]]\<rparr>"

text \<open>A client for which every request times out, one that answers 404, and one
  that answers 200 with the JSON list \<open>[1]\<close>.\<close>

definition offline :: http_client where
  "offline url = Transport_failure ''Read timed out.''"

definition not_found :: http_client where
  "not_found url = Response 404 (Inr (JObj [(''message'', JStr ''CNPJ not found'')]))"

definition answers_list :: http_client where
  "answers_list url = Response 200 (Inr (JArr [JInt 1]))"

section \<open>Lemmas\<close>

subsection \<open>Lowercasing\<close>

lemmas lower_eval = lower_def lower_char_def is_upper_def char_of_def bit_0

lemma lower_char_idem: "lower_char (lower_char c) = lower_char c"
proof (cases "is_upper c")
  case False
  then show ?thesis by (simp add: lower_char_def)
next
  case True
  then have "\<not> is_upper (char_of ((of_char c :: nat) + 32))"
    by (auto simp add: is_upper_def Let_def)
  with True show ?thesis by (simp add: lower_char_def)
qed

lemma lower_idem: "lower (lower s) = lower s"
  by (simp add: lower_def lower_char_idem)

lemma lower_Nil_iff: "lower s = [] \<longleftrightarrow> s = []"
  by (simp add: lower_def)

text \<open>
  \<open>lower\<close> on the whole alphabet: every uppercase letter goes to its lowercase form,
  and the lowercase forms, the digits and the signs stay.
\<close>

lemma lower_alphabet:
  "lower upper_letters = lower_letters \<and> lower lower_letters = lower_letters
   \<and> lower (''0123456789 .-/'' @ [CHR 0xD7, CHR 0xDF, CHR 0xF7, CHR 0xFF])
       = ''0123456789 .-/'' @ [CHR 0xD7, CHR 0xDF, CHR 0xF7, CHR 0xFF]"
  by (simp add: lower_eval upper_letters_def lower_letters_def)

lemma letter_pairs_lower:
  "list_all (\<lambda>(u, l). lower_char u = l \<and> lower_char l = l) (zip upper_letters lower_letters)"
  by (simp add: lower_eval upper_letters_def lower_letters_def)

lemma same_letter_lower: "same_letter a b \<Longrightarrow> lower_char a = lower_char b"
proof -
  assume "same_letter a b"
  then consider "a = b" | "(a, b) \<in> set (zip upper_letters lower_letters)"
    | "(b, a) \<in> set (zip upper_letters lower_letters)"
    by (auto simp add: same_letter_def)
  then show ?thesis
  proof cases
    case 1
    then show ?thesis by simp
  next
    case 2
    with letter_pairs_lower show ?thesis by (auto simp add: list_all_iff)
  next
    case 3
    with letter_pairs_lower show ?thesis by (auto simp add: list_all_iff)
  qed
qed

lemma same_letters_lower: "list_all2 same_letter s s' \<Longrightarrow> lower s = lower s'"
  by (induction rule: list_all2_induct) (simp_all add: lower_def same_letter_lower)

lemma str_lower_astype_idem:
  "str_lower (astype_str pd (str_lower (astype_str pd x))) = str_lower (astype_str pd x)"
  by (cases x; cases pd) (simp_all add: lower_idem)

subsection \<open>Columns and rows of the intermediate tables\<close>

lemma columns_lower_column: "columns (lower_column pd c t) = columns t"
  by (simp add: lower_column_def)

lemma columns_select_rows: "columns (select_rows p t) = columns t"
  by (simp add: select_rows_def)

lemma columns_apply_filter: "columns (apply_filter pd t c v) = columns t"
  by (cases v) (simp_all add: apply_filter_def columns_lower_column columns_select_rows)

lemma columns_filter_loop: "columns (loop_table (filter_loop pd t fs)) = columns t"
  by (induction pd t fs rule: filter_loop.induct) (simp_all add: Let_def columns_apply_filter)

lemma filter_loop_append:
  "filter_loop pd t (pre @ post) =
     (case filter_loop pd t pre of
        Returned t' \<Rightarrow> Returned t'
      | Fallthrough t' \<Rightarrow> filter_loop pd t' post)"
  by (induction pd t pre rule: filter_loop.induct) (simp_all add: Let_def)

lemma filter_loop_skip:
  "is_empty_filter val \<or> col \<notin> set (columns t) \<Longrightarrow>
   filter_loop pd t (pre @ (col, val) # post) = filter_loop pd t (pre @ post)"
proof -
  assume skip: "is_empty_filter val \<or> col \<notin> set (columns t)"
  show ?thesis
  proof (cases "filter_loop pd t pre")
    case (Returned t')
    then show ?thesis by (simp add: filter_loop_append)
  next
    case (Fallthrough t')
    have "columns t' = columns t"
      using columns_filter_loop [of pd t pre] Fallthrough by simp
    with skip Fallthrough show ?thesis by (auto simp add: filter_loop_append)
  qed
qed

lemma normalise_row_empty: "normalise_row pd {} = id"
  by (simp add: normalise_row_def fun_eq_iff)

lemma normalise_row_twice:
  "normalise_row pd A (normalise_row pd B r) = normalise_row pd (A \<union> B) r"
  by (auto simp add: normalise_row_def fun_eq_iff str_lower_astype_idem)

lemma fun_upd_normalise: "r(c := str_lower (astype_str pd (r c))) = normalise_row pd {c} r"
  by (auto simp add: normalise_row_def fun_eq_iff)

lemma rows_lower_column: "rows (lower_column pd c t) = map (normalise_row pd {c}) (rows t)"
  by (simp add: lower_column_def fun_upd_normalise)

lemma rows_select_rows: "rows (select_rows p t) = filter p (rows t)"
  by (simp add: select_rows_def)

lemma subseq_map_preimage:
  assumes "subseq xs (map f ys)"
  shows "\<exists>zs. subseq zs ys \<and> xs = map f zs"
proof -
  from assms obtain N where "xs = nths (map f ys) N"
    by (auto simp add: subseq_conv_nths)
  then have "xs = map f (nths ys N)" by (simp add: nths_map)
  moreover have "subseq (nths ys N) ys" by (auto simp add: subseq_conv_nths)
  ultimately show ?thesis by blast
qed

lemma rows_apply_filter_subseq:
  "\<exists>sub. subseq sub (rows t) \<and> rows (apply_filter pd t c v) = map (normalise_row pd {c}) sub"
proof -
  obtain p where "rows (apply_filter pd t c v) = filter p (map (normalise_row pd {c}) (rows t))"
    by (cases v) (simp_all add: apply_filter_def rows_select_rows rows_lower_column)
  then have "rows (apply_filter pd t c v)
      = map (normalise_row pd {c}) (filter (p \<circ> normalise_row pd {c}) (rows t))"
    by (simp add: filter_map)
  moreover have "subseq (filter (p \<circ> normalise_row pd {c}) (rows t)) (rows t)" by simp
  ultimately show ?thesis by blast
qed

text \<open>The selection of lines 82 to 87 keeps the rows whose cell matches.\<close>

lemma normalised_cell_matches:
  "(case val of
      Many vs \<Rightarrow> normalise_row pd {c} r c \<in> set (map Txt (map (\<lambda>v. lower (py_str v)) vs))
    | Single v \<Rightarrow> normalise_row pd {c} r c = Txt (lower (py_str v)))
   = cell_matches pd (r c) val"
  by (cases "r c"; cases pd; cases val) (auto simp add: normalise_row_def)

lemma apply_filter_select:
  "apply_filter pd t c val =
     select_rows
       (\<lambda>r. case val of
              Many vs \<Rightarrow> r c \<in> set (map Txt (map (\<lambda>v. lower (py_str v)) vs))
            | Single v \<Rightarrow> r c = Txt (lower (py_str v)))
       (lower_column pd c t)"
  by (cases val) (simp_all add: apply_filter_def image_image)

lemma rows_apply_filter_match:
  "rows (apply_filter pd t c val)
     = map (normalise_row pd {c}) (filter (\<lambda>r. cell_matches pd (r c) val) (rows t))"
proof -
  have "rows (apply_filter pd t c val)
      = map (normalise_row pd {c})
          (filter ((\<lambda>r. case val of
              Many vs \<Rightarrow> r c \<in> set (map Txt (map (\<lambda>v. lower (py_str v)) vs))
            | Single v \<Rightarrow> r c = Txt (lower (py_str v))) \<circ> normalise_row pd {c}) (rows t))"
    unfolding apply_filter_select rows_select_rows rows_lower_column filter_map ..
  also have "((\<lambda>r. case val of
              Many vs \<Rightarrow> r c \<in> set (map Txt (map (\<lambda>v. lower (py_str v)) vs))
            | Single v \<Rightarrow> r c = Txt (lower (py_str v))) \<circ> normalise_row pd {c})
        = (\<lambda>r. cell_matches pd (r c) val)"
    unfolding o_def normalised_cell_matches ..
  finally show ?thesis .
qed

lemma apply_filter_table:
  "apply_filter pd t c val = t\<lparr>rows := rows (apply_filter pd t c val)\<rparr>"
  by (cases val) (simp_all add: apply_filter_def select_rows_def lower_column_def)

lemma single_entry:
  assumes "c \<in> set (columns t)" and "\<not> is_empty_filter val"
  shows "filter_data pd engine t (Some [(c, val)]) None None x = Inr (apply_filter pd t c val)"
  using assms by (simp add: filter_data_def Let_def)

subsection \<open>The shape of the result\<close>

text \<open>
  An early return happens only with no rows left. Whatever the loop and the search
  return, its rows are a subsequence of the input rows in which the normalised columns
  are replaced.
\<close>

lemma filter_loop_Returned_rows: "filter_loop pd t fs = Returned t' \<Longrightarrow> rows t' = []"
proof (induction pd t fs rule: filter_loop.induct)
  case (1 pd df2)
  then show ?case by simp
next
  case (2 pd df2 col val rest)
  show ?case
  proof (cases "is_empty_filter val \<or> col \<notin> set (columns df2)")
    case True
    with 2 show ?thesis by (auto split: if_splits)
  next
    case False
    then have ne: "columns (apply_filter pd df2 col val) \<noteq> []"
      by (auto simp add: columns_apply_filter)
    show ?thesis
    proof (cases "df_empty (apply_filter pd df2 col val)")
      case True
      with False "2.prems" have "t' = apply_filter pd df2 col val" by simp
      with True ne show ?thesis by (simp add: df_empty_def)
    next
      case e: False
      with False 2 show ?thesis by simp
    qed
  qed
qed

lemma applied_columns_cong:
  "columns t' = columns t \<Longrightarrow> applied_columns t' fs = applied_columns t fs"
  by (simp add: applied_columns_def)

lemma filter_loop_shape:
  "\<exists>sub. subseq sub (rows t) \<and>
     rows (loop_table (filter_loop pd t fs))
       = map (normalise_row pd (set (applied_columns t fs))) sub"
proof (induction pd t fs rule: filter_loop.induct)
  case (1 pd df2)
  have "rows df2 = map (normalise_row pd {}) (rows df2)" by (simp add: normalise_row_empty)
  then show ?case by (auto simp add: applied_columns_def intro!: exI [of _ "rows df2"])
next
  case (2 pd df2 col val rest)
  show ?case
  proof (cases "is_empty_filter val \<or> col \<notin> set (columns df2)")
    case True
    then have "applied_columns df2 ((col, val) # rest) = applied_columns df2 rest"
      by (auto simp add: applied_columns_def)
    with True 2 show ?thesis by auto
  next
    case False
    let ?df3 = "apply_filter pd df2 col val"
    have app: "applied_columns df2 ((col, val) # rest) = col # applied_columns df2 rest"
      using False by (simp add: applied_columns_def)
    show ?thesis
    proof (cases "df_empty ?df3")
      case True
      with False have "rows ?df3 = []" by (auto simp add: df_empty_def columns_apply_filter)
      with True False show ?thesis by (auto intro!: exI [of _ "[]"])
    next
      case ne: False
      with False 2 obtain sub' where sub': "subseq sub' (rows ?df3)"
        and out: "rows (loop_table (filter_loop pd ?df3 rest))
                    = map (normalise_row pd (set (applied_columns ?df3 rest))) sub'"
        by auto
      obtain s0 where s0: "subseq s0 (rows df2)" "rows ?df3 = map (normalise_row pd {col}) s0"
        using rows_apply_filter_subseq by blast
      from sub' s0 obtain zs where zs: "subseq zs s0" "sub' = map (normalise_row pd {col}) zs"
        using subseq_map_preimage by metis
      have "subseq zs (rows df2)" using zs(1) s0(1) by (rule subseq_order.trans)
      moreover have "rows (loop_table (filter_loop pd df2 ((col, val) # rest)))
          = map (normalise_row pd (set (applied_columns df2 ((col, val) # rest)))) zs"
        using False ne out zs(2) app
        by (simp add: applied_columns_cong [OF columns_apply_filter] normalise_row_twice o_def)
      ultimately show ?thesis by blast
    qed
  qed
qed

lemma text_search_skipped:
  "searched_columns t c q = [] \<Longrightarrow> text_search pd engine t c q x = Inr t"
  by (cases c; cases q) (auto split: if_splits)

lemma text_search_applied:
  assumes "searched_columns t c q \<noteq> []"
  obtains cs qs where "c = Some cs" "q = Some qs" "cs \<noteq> []" "qs \<noteq> []"
    "cs \<in> set (columns t)" "searched_columns t c q = [cs]"
proof -
  from assms obtain cs qs where cq: "c = Some cs" "q = Some qs"
    by (cases c; cases q) simp_all
  with assms have "cs \<noteq> []" "qs \<noteq> []" "cs \<in> set (columns t)" "searched_columns t c q = [cs]"
    by (simp_all split: if_splits)
  with cq that show ?thesis by blast
qed

lemma text_search_shape:
  assumes "text_search pd engine t c q x = Inr out"
  shows "columns out = columns t \<and>
     (\<exists>sub. subseq sub (rows t) \<and>
        rows out = map (normalise_row pd (set (searched_columns t c q))) sub)"
proof (cases "searched_columns t c q = []")
  case True
  with assms have "out = t" by (simp add: text_search_skipped)
  moreover have "rows t = map (normalise_row pd {}) (rows t)" by (simp add: normalise_row_empty)
  ultimately show ?thesis using True by (auto intro!: exI [of _ "rows t"])
next
  case False
  then obtain cs qs where [simp]: "c = Some cs" "q = Some qs"
    and t: "cs \<noteq> []" "qs \<noteq> []" "cs \<in> set (columns t)" and sc: "searched_columns t c q = [cs]"
    by (rule text_search_applied)
  from assms t obtain p where out: "out = select_rows p (lower_column pd cs t)"
    by (auto simp add: Let_def split: if_splits option.splits)
  then have "rows out
      = map (normalise_row pd {cs}) (filter (p \<circ> normalise_row pd {cs}) (rows t))"
    by (simp add: rows_select_rows rows_lower_column filter_map)
  moreover have "subseq (filter (p \<circ> normalise_row pd {cs}) (rows t)) (rows t)" by simp
  moreover have "columns out = columns t"
    using out by (simp add: columns_select_rows columns_lower_column)
  ultimately show ?thesis unfolding sc
    by (auto intro!: exI [of _ "filter (p \<circ> normalise_row pd {cs}) (rows t)"])
qed

lemma filter_data_shape:
  assumes "filter_data pd engine T filtros c q x = Inr out"
  shows "columns out = columns T \<and>
     (\<exists>sub. subseq sub (rows T) \<and>
        rows out = map (normalise_row pd (normalised_columns T filtros c q)) sub)"
proof (cases "filter_loop pd T (filtros_or_empty filtros)")
  case (Returned t')
  then have "out = t'" using assms by (simp add: filter_data_def)
  moreover have "rows t' = []" using Returned by (rule filter_loop_Returned_rows)
  moreover have "columns t' = columns T"
    using columns_filter_loop [of pd T "filtros_or_empty filtros"] Returned by simp
  ultimately show ?thesis by (auto intro!: exI [of _ "[]"])
next
  case (Fallthrough t')
  then have ts: "text_search pd engine t' c q x = Inr out"
    using assms by (simp add: filter_data_def)
  have cols: "columns t' = columns T"
    using columns_filter_loop [of pd T "filtros_or_empty filtros"] Fallthrough by simp
  obtain s1 where s1: "subseq s1 (rows T)"
      "rows t' = map (normalise_row pd (set (applied_columns T (filtros_or_empty filtros)))) s1"
    using filter_loop_shape [of T pd "filtros_or_empty filtros"] Fallthrough by auto
  from text_search_shape [OF ts] obtain s2 where s2: "subseq s2 (rows t')"
      "rows out = map (normalise_row pd (set (searched_columns t' c q))) s2"
    and co: "columns out = columns t'"
    by auto
  from s2(1) s1(2) obtain zs where zs: "subseq zs s1"
      "s2 = map (normalise_row pd (set (applied_columns T (filtros_or_empty filtros)))) zs"
    using subseq_map_preimage by metis
  have sc: "searched_columns t' c q = searched_columns T c q"
    using cols by (cases c; cases q; simp)
  have "subseq zs (rows T)" using zs(1) s1(1) by (rule subseq_order.trans)
  moreover have "rows out = map (normalise_row pd (normalised_columns T filtros c q)) zs"
    using s2(2) zs(2) sc by (simp add: normalise_row_twice normalised_columns_def Un_commute)
  ultimately show ?thesis using co cols by auto
qed

subsection \<open>Missing values under a substring search\<close>

text \<open>
  Where \<open>astype(str)\<close> keeps a missing value missing, normalising a row neither makes
  nor removes a missing value, and the mask of \<open>str.contains\<close> is false on it.
\<close>

lemma normalise_row_missing:
  "normalise_row Na_stays cs r c = NaN \<longleftrightarrow> r c = NaN"
  by (cases "r c") (simp_all add: normalise_row_def)

lemma contains_search_result:
  assumes "text_search pd engine t (Some cs) (Some qs) False = Inr out"
    and "cs \<noteq> []" and "qs \<noteq> []" and "cs \<in> set (columns t)"
  shows "\<exists>m. re_compile engine (lower qs) = Some m \<and>
           rows out = map (normalise_row pd {cs})
             (filter (\<lambda>r. contains_cell m (normalise_row pd {cs} r cs)) (rows t))"
proof -
  from assms obtain m where m: "re_compile engine (lower qs) = Some m"
    and out: "out = select_rows (\<lambda>r. contains_cell m (r cs)) (lower_column pd cs t)"
    by (auto simp add: Let_def split: option.splits)
  from out have "rows out = map (normalise_row pd {cs})
             (filter (\<lambda>r. contains_cell m (normalise_row pd {cs} r cs)) (rows t))"
    by (simp add: rows_select_rows rows_lower_column filter_map o_def)
  with m show ?thesis by blast
qed

lemma contains_search_error:
  assumes "text_search pd engine t (Some cs) (Some qs) False = Inl e"
  shows "re_compile engine (lower qs) = None"
  using assms by (auto simp add: Let_def split: if_splits option.splits)

lemma filter_data_error:
  assumes "filter_data pd engine T filtros c q x = Inl e"
  shows "\<exists>t'. text_search pd engine t' c q x = Inl e"
  using assms by (auto simp add: filter_data_def split: loop_result.splits)

subsection \<open>Case variants and repeated filters\<close>

lemma value_variant_lower: "value_variant v v' \<Longrightarrow> lower (py_str v) = lower (py_str v')"
  by (cases v; cases v') (simp_all add: same_letters_lower)

lemma value_variants_lower:
  "list_all2 value_variant vs vs' \<Longrightarrow>
     map (\<lambda>v. lower (py_str v)) vs = map (\<lambda>v. lower (py_str v)) vs'"
  by (induction rule: list_all2_induct) (simp_all add: value_variant_lower)

lemma case_variant_empty:
  "case_variant val val' \<Longrightarrow> is_empty_filter val = is_empty_filter val'"
proof (cases val)
  case (Single v)
  assume cv: "case_variant val val'"
  with Single obtain v' where v': "val' = Single v'" "value_variant v v'"
    by (cases val') simp_all
  from v'(2) have "(v = PyNone \<and> v' = PyNone)
      \<or> (\<exists>s s'. v = PyStr s \<and> v' = PyStr s' \<and> list_all2 same_letter s s')"
    by (cases v; cases v') simp_all
  then show ?thesis
  proof
    assume "v = PyNone \<and> v' = PyNone"
    with Single v'(1) show ?thesis by simp
  next
    assume "\<exists>s s'. v = PyStr s \<and> v' = PyStr s' \<and> list_all2 same_letter s s'"
    then obtain s s' where "v = PyStr s" "v' = PyStr s'" "list_all2 same_letter s s'" by blast
    with Single v'(1) show ?thesis by (auto dest: list_all2_lengthD)
  qed
next
  case (Many vs)
  assume cv: "case_variant val val'"
  with Many obtain vs' where "val' = Many vs'" "list_all2 value_variant vs vs'"
    by (cases val') simp_all
  with Many show ?thesis by (auto dest: list_all2_lengthD)
qed

lemma case_variant_apply:
  "case_variant val val' \<Longrightarrow> apply_filter pd t c val = apply_filter pd t c val'"
proof (cases val)
  case (Single v)
  assume "case_variant val val'"
  with Single obtain v' where "val' = Single v'" "value_variant v v'" by (cases val') simp_all
  with Single show ?thesis by (simp add: apply_filter_def value_variant_lower)
next
  case (Many vs)
  assume "case_variant val val'"
  with Many obtain vs' where "val' = Many vs'" "list_all2 value_variant vs vs'"
    by (cases val') simp_all
  with Many show ?thesis by (simp add: apply_filter_def value_variants_lower)
qed

lemma filter_loop_variant:
  assumes "case_variant val val'"
  shows "filter_loop pd t (pre @ (c, val) # post) = filter_loop pd t (pre @ (c, val') # post)"
  using case_variant_empty [OF assms] case_variant_apply [OF assms]
  by (simp add: filter_loop_append split: loop_result.splits)

lemma cell_matches_normalised:
  "cell_matches pd (normalise_row pd {c} r c) (Many S) = cell_matches pd (r c) (Many S)"
  by (cases "r c"; cases pd) (simp_all add: normalise_row_def lower_idem)

lemma cell_matches_mono:
  "set S \<subseteq> set S' \<Longrightarrow> cell_matches pd x (Many S) \<Longrightarrow> cell_matches pd x (Many S')"
  by (cases x; cases pd) auto

lemma apply_filter_again:
  assumes "set S \<subseteq> set S'"
  shows "apply_filter pd (apply_filter pd t c (Many S)) c (Many S') = apply_filter pd t c (Many S)"
proof -
  let ?t1 = "apply_filter pd t c (Many S)"
  let ?N = "normalise_row pd {c}"
  have r1: "rows ?t1 = map ?N (filter (\<lambda>r. cell_matches pd (r c) (Many S)) (rows t))"
    by (rule rows_apply_filter_match)
  have idem: "map ?N (rows ?t1) = rows ?t1"
    unfolding r1 by (simp add: normalise_row_twice)
  have keep: "cell_matches pd (r c) (Many S')" if "r \<in> set (rows ?t1)" for r
  proof -
    from that obtain r0 where "r = ?N r0" "cell_matches pd (r0 c) (Many S)"
      unfolding r1 by auto
    then have "cell_matches pd (r c) (Many S)" by (simp add: cell_matches_normalised)
    with assms show ?thesis by (rule cell_matches_mono)
  qed
  have "rows (apply_filter pd ?t1 c (Many S'))
      = map ?N (filter (\<lambda>r. cell_matches pd (r c) (Many S')) (rows ?t1))"
    by (rule rows_apply_filter_match)
  also have "filter (\<lambda>r. cell_matches pd (r c) (Many S')) (rows ?t1) = rows ?t1"
    using keep by (simp add: filter_id_conv)
  finally have "rows (apply_filter pd ?t1 c (Many S')) = rows ?t1" using idem by simp
  then show ?thesis
    using apply_filter_table [of pd ?t1 c "Many S'"] by simp
qed

subsection \<open>The model on the examples of the specification\<close>

lemmas eval_defs =
  filter_data_def apply_filter_def lower_column_def select_rows_def df_empty_def
  row_of_def re_compile_def re_special_def Let_def lower_eval

lemma staff_filtered_rh:
  "filter_data pd Map.empty staff (Some [(''SETOR'', Many [PyStr ''RH''])]) None None True
     = Inr staff_rh"
  by (cases pd) (simp_all add: staff_def staff_rh_def eval_defs fun_eq_iff)

text \<open>
  The end-to-end scenario: \<open>{SETOR: ["RH"]}\<close> keeps two rows, and with \<open>{SIT: "Ativo"}\<close>
  added one row is left.
\<close>

lemma staff_rh_ativo:
  "filter_data pd Map.empty staff
     (Some [(''SETOR'', Many [PyStr ''RH'']), (''SIT'', Single (PyStr ''Ativo''))]) None None True
     = Inr \<lparr>columns = [''SETOR'', ''SIT''],
            rows = [row_of [(''SETOR'', Txt ''rh''), (''SIT'', Txt ''ativo'')]]\<rparr>"
  by (cases pd) (simp_all add: staff_def eval_defs fun_eq_iff)

text \<open>
  The search example: \<open>sil\<close> is contained in \<open>Brasil\<close> and \<open>Silva\<close>, not in \<open>Norte\<close>, and
  equals none of them.
\<close>

lemma search_example:
  "map (\<lambda>s. substring (lower ''sil'') (lower s)) [''Brasil'', ''Silva'', ''Norte'']
     = [True, True, False]
   \<and> map (\<lambda>s. lower s = lower ''sil'') [''Brasil'', ''Silva'', ''Norte'']
     = [False, False, False]"
  by (simp add: lower_eval)

text \<open>
  The substring query \<open>a\<close> on a column with a missing value: where \<open>astype(str)\<close> makes
  the text \<open>nan\<close> of it the row is returned, where it keeps it missing the row is not.
\<close>

lemma missing_value_and_query_a:
  "filter_data Na_as_text Map.empty places (Some []) (Some ''NOME'') (Some ''a'') False
     = Inr \<lparr>columns = [''NOME''],
            rows = [row_of [(''NOME'', Txt ''brasil'')], row_of [(''NOME'', Txt ''nan'')]]\<rparr>
   \<and> filter_data Na_stays Map.empty places (Some []) (Some ''NOME'') (Some ''a'') False
     = Inr \<lparr>columns = [''NOME''], rows = [row_of [(''NOME'', Txt ''brasil'')]]\<rparr>"
  by (simp add: places_def eval_defs fun_eq_iff)

lemma letters_filtered:
  "filter_data pd Map.empty letters
     (Some [(''TEXTO'', Single (PyStr (upper_letters @ ''7'' @ [CHR 0xD7, CHR 0xDF])))])
     None None True
     = Inr letters_found"
  by (cases pd)
    (simp_all add: letters_def letters_found_def upper_letters_def lower_letters_def
       eval_defs fun_eq_iff)

lemma str_nat_example: "str_nat 404 = ''404''"
  by (simp add: str_nat.simps digit_char_def)

text \<open>
  An answer 200 whose body is a JSON list is bound to \<open>dados\<close>, which is then true, and
  \<open>mostra_detalhes_cnpj\<close> raises outside the try statement.
\<close>

lemma drawing_can_raise:
  "brasilapi_block draw answers_list ''00000000000191''
     = (Inl (attribute_error (JArr [JInt 1]) ''get''), [])"
  by (simp add: brasilapi_block_def try_get_cnpj_data_def get_cnpj_data_def answers_list_def
        mostra_detalhes_cnpj_def)

section \<open>The claims\<close>

subsection \<open>C1: is the normalisation visible in the output?\<close>

text \<open>
  The claim says that the cells of every kept row are those of the input. The code
  assigns the lowercase text to \<open>df2[col]\<close> and returns \<open>df2\<close>: on the staff table the
  filter \<open>{SETOR: ["RH"]}\<close> returns the two rows with \<open>rh\<close> in the column \<open>SETOR\<close>, where
  the input has \<open>RH\<close>, whatever \<open>astype(str)\<close> does with missing values.
\<close>

theorem lowercase_visible_in_output:
  "filter_data Na_stays Map.empty staff (Some [(''SETOR'', Many [PyStr ''RH''])]) None None True
     = Inr \<lparr>columns = [''SETOR'', ''SIT''],
            rows = [row_of [(''SETOR'', Txt ''rh''), (''SIT'', Txt ''Ativo'')],
                    row_of [(''SETOR'', Txt ''rh''), (''SIT'', Txt ''Inativo'')]]\<rparr>
   \<and> filter_data Na_as_text Map.empty staff (Some [(''SETOR'', Many [PyStr ''RH''])]) None None True
     = Inr \<lparr>columns = [''SETOR'', ''SIT''],
            rows = [row_of [(''SETOR'', Txt ''rh''), (''SIT'', Txt ''Ativo'')],
                    row_of [(''SETOR'', Txt ''rh''), (''SIT'', Txt ''Inativo'')]]\<rparr>
   \<and> column_values ''SETOR'' staff = [Txt ''RH'', Txt ''TI'', Txt ''RH'']"
  by (simp add: staff_def eval_defs fun_eq_iff column_values_def)

text \<open>
  Claim C1, as amended: whenever \<open>filter_data\<close> returns a table, every row of it comes
  from a row of the input; its cells in the columns that were not normalised (no
  applied filter entry and no applied search names them) are identical to the cells of
  that input row, and a text cell of a normalised column is returned as its lowercase
  form.
\<close>

theorem kept_cells:
  assumes "filter_data pd engine T filtros column_for_search query exact_match = Inr out"
    and "r' \<in> set (rows out)"
  shows "\<exists>r \<in> set (rows T). \<forall>c.
           (c \<notin> normalised_columns T filtros column_for_search query \<longrightarrow> r' c = r c)
         \<and> (\<forall>s. c \<in> normalised_columns T filtros column_for_search query \<longrightarrow> r c = Txt s
                \<longrightarrow> r' c = Txt (lower s))"
proof -
  from filter_data_shape [OF assms(1)] obtain sub where sub: "subseq sub (rows T)"
    "rows out = map (normalise_row pd (normalised_columns T filtros column_for_search query)) sub"
    by blast
  from assms(2) sub(2) obtain r where r: "r \<in> set sub"
    "r' = normalise_row pd (normalised_columns T filtros column_for_search query) r"
    by auto
  from r(1) sub(1) have "r \<in> set (rows T)"
    by (metis subseq_order.dual_order.trans subseq_singleton_left)
  moreover from r(2) have "\<forall>c.
           (c \<notin> normalised_columns T filtros column_for_search query \<longrightarrow> r' c = r c)
         \<and> (\<forall>s. c \<in> normalised_columns T filtros column_for_search query \<longrightarrow> r c = Txt s
                \<longrightarrow> r' c = Txt (lower s))"
    by (simp add: normalise_row_def)
  ultimately show ?thesis by blast
qed

text \<open>
  The theorem on the table of letters: the row returned has the whole alphabet in
  lowercase in the column filtered and its other cell as in the input.
\<close>

theorem kept_cells_witness:
  "filter_data Na_stays Map.empty letters
     (Some [(''TEXTO'', Single (PyStr (upper_letters @ ''7'' @ [CHR 0xD7, CHR 0xDF])))])
     None None True
     = Inr letters_found
   \<and> row_of [(''TEXTO'', Txt (lower_letters @ ''7'' @ [CHR 0xD7, CHR 0xDF])), (''N'', Txt ''Um'')]
       \<in> set (rows letters_found)
   \<and> (\<exists>r \<in> set (rows letters). \<forall>c.
         (c \<notin> normalised_columns letters
                 (Some [(''TEXTO'', Single (PyStr (upper_letters @ ''7'' @ [CHR 0xD7, CHR 0xDF])))])
                 None None
            \<longrightarrow> row_of [(''TEXTO'', Txt (lower_letters @ ''7'' @ [CHR 0xD7, CHR 0xDF])),
                          (''N'', Txt ''Um'')] c = r c)
       \<and> (\<forall>s. c \<in> normalised_columns letters
                 (Some [(''TEXTO'', Single (PyStr (upper_letters @ ''7'' @ [CHR 0xD7, CHR 0xDF])))])
                 None None
              \<longrightarrow> r c = Txt s
              \<longrightarrow> row_of [(''TEXTO'', Txt (lower_letters @ ''7'' @ [CHR 0xD7, CHR 0xDF])),
                            (''N'', Txt ''Um'')] c = Txt (lower s)))"
proof -
  have h2: "row_of [(''TEXTO'', Txt (lower_letters @ ''7'' @ [CHR 0xD7, CHR 0xDF])), (''N'', Txt ''Um'')]
       \<in> set (rows letters_found)"
    by (simp add: letters_found_def)
  from kept_cells [OF letters_filtered h2] letters_filtered [of Na_stays] h2
  show ?thesis by blast
qed

subsection \<open>C2: missing values and substring search\<close>

text \<open>
  The claim is stated for any query string. With the empty string as query, line 99
  skips the search, and the row with the missing value is returned with the others,
  whatever \<open>astype(str)\<close> does with missing values.
\<close>

theorem empty_query_keeps_missing:
  "filter_data Na_stays Map.empty places (Some []) (Some ''NOME'') (Some []) False = Inr places
   \<and> filter_data Na_as_text Map.empty places (Some []) (Some ''NOME'') (Some []) False = Inr places
   \<and> column_values ''NOME'' places = [Txt ''Brasil'', NaN]"
  by (simp add: places_def eval_defs column_values_def)

text \<open>
  Claim C2, as amended: let the search column exist, and let its name and the query
  not be empty. Where \<open>astype(str)\<close> keeps a missing value missing, a CONTAINS search
  returns rows that come, in order, from input rows whose value in the search column
  is not missing; and it ends in an error only when the query does not compile as a
  regular expression, so a missing value causes none.
\<close>

theorem missing_never_matches:
  assumes "column_for_search \<noteq> []" and "query \<noteq> []"
    and "column_for_search \<in> set (columns T)"
  shows "case filter_data Na_stays engine T filtros (Some column_for_search) (Some query) False of
           Inl e \<Rightarrow> re_compile engine (lower query) = None
         | Inr out \<Rightarrow>
             \<exists>sub. subseq sub (filter (\<lambda>r. r column_for_search \<noteq> NaN) (rows T))
               \<and> rows out
                   = map (normalise_row Na_stays
                            (normalised_columns T filtros (Some column_for_search) (Some query)))
                       sub"
proof (cases "filter_data Na_stays engine T filtros (Some column_for_search) (Some query) False")
  case (Inl e)
  then obtain t' where "text_search Na_stays engine t' (Some column_for_search) (Some query) False = Inl e"
    using filter_data_error by blast
  then have "re_compile engine (lower query) = None" by (rule contains_search_error)
  with Inl show ?thesis by simp
next
  case (Inr out)
  let ?cs = column_for_search
  let ?fs = "filtros_or_empty filtros"
  let ?A = "set (applied_columns T ?fs)"
  let ?all = "normalised_columns T filtros (Some ?cs) (Some query)"
  let ?nn = "\<lambda>r. r ?cs \<noteq> NaN"
  have all: "?all = {?cs} \<union> ?A"
    using assms by (auto simp add: normalised_columns_def)
  have "\<exists>sub. subseq sub (filter ?nn (rows T)) \<and> rows out = map (normalise_row Na_stays ?all) sub"
  proof (cases "filter_loop Na_stays T ?fs")
    case (Returned t')
    then have "out = t'" using Inr by (simp add: filter_data_def)
    moreover have "rows t' = []" using Returned by (rule filter_loop_Returned_rows)
    ultimately show ?thesis by (auto intro!: exI [of _ "[]"])
  next
    case (Fallthrough t')
    then have ts: "text_search Na_stays engine t' (Some ?cs) (Some query) False = Inr out"
      using Inr by (simp add: filter_data_def)
    have cols: "columns t' = columns T"
      using columns_filter_loop [of Na_stays T ?fs] Fallthrough by simp
    obtain s1 where s1: "subseq s1 (rows T)" "rows t' = map (normalise_row Na_stays ?A) s1"
      using filter_loop_shape [of T Na_stays ?fs] Fallthrough by auto
    from contains_search_result [OF ts assms(1,2)] assms(3) cols
    obtain m where out: "rows out = map (normalise_row Na_stays {?cs})
             (filter (\<lambda>r. contains_cell m (normalise_row Na_stays {?cs} r ?cs)) (rows t'))"
      by auto
    let ?K = "\<lambda>r. contains_cell m (normalise_row Na_stays {?cs} (normalise_row Na_stays ?A r) ?cs)"
    have out': "rows out = map (normalise_row Na_stays ?all) (filter ?K s1)"
      unfolding out s1(2) all by (simp add: filter_map o_def normalise_row_twice)
    have K: "?K r \<Longrightarrow> ?nn r" for r
    proof -
      assume "?K r"
      then have "normalise_row Na_stays {?cs} (normalise_row Na_stays ?A r) ?cs \<noteq> NaN"
        by (cases "normalise_row Na_stays {?cs} (normalise_row Na_stays ?A r) ?cs") simp_all
      then show "?nn r" by (simp add: normalise_row_missing)
    qed
    have "filter ?K (filter ?nn s1) = filter (\<lambda>r. ?nn r \<and> ?K r) s1"
      by (simp only: filter_filter)
    also have "\<dots> = filter ?K s1"
      by (rule filter_cong) (auto dest: K)
    finally have eq: "filter ?K (filter ?nn s1) = filter ?K s1" .
    have "subseq (filter ?K (filter ?nn s1)) (filter ?nn s1)"
      by (rule subseq_filter_left)
    moreover have "subseq (filter ?nn s1) (filter ?nn (rows T))"
      using s1(1) by (rule subseq_filter)
    ultimately have "subseq (filter ?K (filter ?nn s1)) (filter ?nn (rows T))"
      by (rule subseq_order.trans)
    then have "subseq (filter ?K s1) (filter ?nn (rows T))"
      by (simp only: eq)
    with out' show ?thesis by blast
  qed
  with Inr show ?thesis by simp
qed

text \<open>
  The theorem on the column with a missing value and the query \<open>a\<close>: only the row of
  \<open>Brasil\<close> is returned.
\<close>

theorem missing_never_matches_witness:
  "''NOME'' \<noteq> [] \<and> ''a'' \<noteq> [] \<and> ''NOME'' \<in> set (columns places)
   \<and> filter_data Na_stays Map.empty places (Some []) (Some ''NOME'') (Some ''a'') False
       = Inr \<lparr>columns = [''NOME''], rows = [row_of [(''NOME'', Txt ''brasil'')]]\<rparr>
   \<and> (\<exists>sub. subseq sub (filter (\<lambda>r. r ''NOME'' \<noteq> NaN) (rows places))
         \<and> [row_of [(''NOME'', Txt ''brasil'')]]
             = map (normalise_row Na_stays
                      (normalised_columns places (Some []) (Some ''NOME'') (Some ''a'')))
                 sub)"
proof -
  have h: "''NOME'' \<noteq> []" "''a'' \<noteq> []" "''NOME'' \<in> set (columns places)"
    by (simp_all add: places_def)
  have e: "filter_data Na_stays Map.empty places (Some []) (Some ''NOME'') (Some ''a'') False
       = Inr \<lparr>columns = [''NOME''], rows = [row_of [(''NOME'', Txt ''brasil'')]]\<rparr>"
    using missing_value_and_query_a by simp
  from missing_never_matches [OF h, of Map.empty "Some []"] e h show ?thesis by simp
qed

subsection \<open>C3: faults of the registry client\<close>

text \<open>
  The claim says that the fetch operation returns an empty record on a transport
  failure. \<open>get_cnpj_data\<close> has no handler: when the request times out, the exception
  leaves the function.
\<close>

theorem fetch_propagates_transport_failure:
  "get_cnpj_data offline ''00000000000191'' = (Inl (Exception ''Read timed out.''), [])"
  by (simp add: get_cnpj_data_def offline_def)

text \<open>
  Claim C3, as amended: on a response whose status is not 200, \<open>get_cnpj_data\<close> returns
  the empty record and shows an error message with the status. On a transport failure
  \<open>get_cnpj_data\<close> itself raises; the try statement around its call catches the
  exception, shows an error message with its text and binds the empty record. In both
  cases the calling block ends with the empty record and without an exception, since
  nothing is drawn for an empty record.
\<close>

theorem registry_faults_contained:
  "(http_get (api_url cnpj) = Response status body \<and> status \<noteq> 200 \<and> cnpj \<noteq> [] \<longrightarrow>
        get_cnpj_data http_get cnpj
          = (Inr (JObj []), [St_error (''Erro ao consultar BrasilAPI: status '' @ str_nat status)])
        \<and> brasilapi_block draw http_get cnpj
          = (Inr (Some (JObj [])),
             [St_error (''Erro ao consultar BrasilAPI: status '' @ str_nat status)]))
   \<and> (http_get (api_url cnpj) = Transport_failure e \<and> cnpj \<noteq> [] \<longrightarrow>
        get_cnpj_data http_get cnpj = (Inl (Exception e), [])
        \<and> brasilapi_block draw http_get cnpj
            = (Inr (Some (JObj [])), [St_error (''Erro BrasilAPI: '' @ e)]))"
proof (intro conjI impI)
  assume a: "http_get (api_url cnpj) = Response status body \<and> status \<noteq> 200 \<and> cnpj \<noteq> []"
  then show g: "get_cnpj_data http_get cnpj
          = (Inr (JObj []), [St_error (''Erro ao consultar BrasilAPI: status '' @ str_nat status)])"
    by (simp add: get_cnpj_data_def)
  with a show "brasilapi_block draw http_get cnpj
          = (Inr (Some (JObj [])),
             [St_error (''Erro ao consultar BrasilAPI: status '' @ str_nat status)])"
    by (simp add: brasilapi_block_def try_get_cnpj_data_def)
next
  assume a: "http_get (api_url cnpj) = Transport_failure e \<and> cnpj \<noteq> []"
  then show "get_cnpj_data http_get cnpj = (Inl (Exception e), [])"
    by (simp add: get_cnpj_data_def)
  with a show "brasilapi_block draw http_get cnpj
            = (Inr (Some (JObj [])), [St_error (''Erro BrasilAPI: '' @ e)])"
    by (simp add: brasilapi_block_def try_get_cnpj_data_def)
qed

theorem registry_faults_contained_witness:
  "offline (api_url ''00000000000191'') = Transport_failure ''Read timed out.''
   \<and> ''00000000000191'' \<noteq> []
   \<and> not_found (api_url ''00000000000191'')
        = Response 404 (Inr (JObj [(''message'', JStr ''CNPJ not found'')]))
   \<and> (404::nat) \<noteq> 200
   \<and> get_cnpj_data not_found ''00000000000191''
        = (Inr (JObj []), [St_error ''Erro ao consultar BrasilAPI: status 404''])
   \<and> brasilapi_block Map.empty not_found ''00000000000191''
        = (Inr (Some (JObj [])), [St_error ''Erro ao consultar BrasilAPI: status 404''])
   \<and> get_cnpj_data offline ''00000000000191'' = (Inl (Exception ''Read timed out.''), [])
   \<and> brasilapi_block Map.empty offline ''00000000000191''
        = (Inr (Some (JObj [])), [St_error ''Erro BrasilAPI: Read timed out.''])"
  using registry_faults_contained [where http_get = offline and cnpj = "''00000000000191''"
      and status = 0 and body = "Inl []" and e = "''Read timed out.''" and draw = Map.empty]
    registry_faults_contained [where http_get = not_found and cnpj = "''00000000000191''"
      and status = 404 and body = "Inr (JObj [(''message'', JStr ''CNPJ not found'')])"
      and e = "[]" and draw = Map.empty]
  by (simp add: offline_def not_found_def str_nat.simps digit_char_def)

subsection \<open>C4: case-insensitive constraints\<close>

text \<open>
  Claim C4: replacing the constraint of an entry by a case variant of it leaves the
  result of \<open>filter_data\<close> unchanged, whatever the other entries and the search are; and
  for an existing column and a constraint that is not empty, the rows kept are exactly
  the input rows whose cell matches the constraint by lowercase forms (equal to the
  value, or a member of the collection's lowercase values), in their order.
\<close>

theorem case_insensitive_constraint:
  "(case_variant val val' \<longrightarrow>
      filter_data pd engine T (Some (pre @ (col, val) # post)) column_for_search query exact_match
        = filter_data pd engine T (Some (pre @ (col, val') # post)) column_for_search query
            exact_match)
   \<and> (col \<in> set (columns T) \<and> \<not> is_empty_filter val \<longrightarrow>
        filter_data pd engine T (Some [(col, val)]) None None exact_match
          = Inr (T\<lparr>rows := map (normalise_row pd {col})
                             (filter (\<lambda>r. cell_matches pd (r col) val) (rows T))\<rparr>))"
proof (intro conjI impI)
  assume "case_variant val val'"
  then show "filter_data pd engine T (Some (pre @ (col, val) # post)) column_for_search query
        exact_match
        = filter_data pd engine T (Some (pre @ (col, val') # post)) column_for_search query
            exact_match"
    by (simp add: filter_data_def filter_loop_variant)
next
  assume a: "col \<in> set (columns T) \<and> \<not> is_empty_filter val"
  have "apply_filter pd T col val = T\<lparr>rows := map (normalise_row pd {col})
                             (filter (\<lambda>r. cell_matches pd (r col) val) (rows T))\<rparr>"
    using apply_filter_table [of pd T col val] by (simp add: rows_apply_filter_match)
  with a show "filter_data pd engine T (Some [(col, val)]) None None exact_match
          = Inr (T\<lparr>rows := map (normalise_row pd {col})
                             (filter (\<lambda>r. cell_matches pd (r col) val) (rows T))\<rparr>)"
    by (simp add: single_entry)
qed

text \<open>
  The theorem on the table of letters: the whole alphabet in lowercase is a case
  variant of the alphabet in uppercase, and both constraints return the one row whose
  text matches.
\<close>

theorem case_insensitive_constraint_witness:
  "case_variant (Single (PyStr (lower_letters @ ''7'' @ [CHR 0xD7, CHR 0xDF])))
                (Single (PyStr (upper_letters @ ''7'' @ [CHR 0xD7, CHR 0xDF])))
   \<and> filter_data Na_stays Map.empty letters
        (Some ([] @ (''TEXTO'', Single (PyStr (lower_letters @ ''7'' @ [CHR 0xD7, CHR 0xDF]))) # []))
        None None True
       = Inr letters_found
   \<and> ''TEXTO'' \<in> set (columns letters)
   \<and> \<not> is_empty_filter (Single (PyStr (lower_letters @ ''7'' @ [CHR 0xD7, CHR 0xDF])))
   \<and> rows letters_found = map (normalise_row Na_stays {''TEXTO''})
        (filter (\<lambda>r. cell_matches Na_stays (r ''TEXTO'')
                       (Single (PyStr (lower_letters @ ''7'' @ [CHR 0xD7, CHR 0xDF]))))
           (rows letters))"
proof -
  let ?lo = "Single (PyStr (lower_letters @ ''7'' @ [CHR 0xD7, CHR 0xDF]))"
  let ?up = "Single (PyStr (upper_letters @ ''7'' @ [CHR 0xD7, CHR 0xDF]))"
  let ?X = "map (normalise_row Na_stays {''TEXTO''})
        (filter (\<lambda>r. cell_matches Na_stays (r ''TEXTO'') ?lo) (rows letters))"
  note inst = case_insensitive_constraint [of ?lo ?up Na_stays Map.empty letters "[]"
      "''TEXTO''" "[]" None None True]
  have cv: "case_variant ?lo ?up"
    by (simp add: same_letter_def upper_letters_def lower_letters_def)
  have ex: "''TEXTO'' \<in> set (columns letters) \<and> \<not> is_empty_filter ?lo"
    by (simp add: letters_def lower_letters_def)
  have "filter_data Na_stays Map.empty letters (Some ([] @ (''TEXTO'', ?lo) # [])) None None True
      = filter_data Na_stays Map.empty letters (Some ([] @ (''TEXTO'', ?up) # [])) None None True"
    using inst cv by blast
  with letters_filtered [of Na_stays]
  have a: "filter_data Na_stays Map.empty letters (Some ([] @ (''TEXTO'', ?lo) # [])) None None True
      = Inr letters_found"
    by simp
  have b: "filter_data Na_stays Map.empty letters (Some [(''TEXTO'', ?lo)]) None None True
      = Inr (letters\<lparr>rows := ?X\<rparr>)"
    using inst ex by blast
  from a b have "letters_found = letters\<lparr>rows := ?X\<rparr>" by simp
  then have "rows letters_found = rows (letters\<lparr>rows := ?X\<rparr>)" by (rule arg_cong)
  also have "\<dots> = ?X" by simp
  finally show ?thesis using cv ex a by blast
qed

subsection \<open>C5: early exit\<close>

text \<open>
  Claim C5: let the loop reach an entry with the working table \<open>W\<close>, and let the
  entry be applied (its constraint is not empty, its column exists) and leave no row.
  Then \<open>filter_data\<close> returns that empty table, whatever entries follow and whatever the
  search specification is: nothing after the entry is applied, and no error of the
  search can occur.
\<close>

theorem early_exit:
  assumes "filter_loop pd T pre = Fallthrough W"
    and "\<not> is_empty_filter val" and "col \<in> set (columns W)"
    and "rows (apply_filter pd W col val) = []"
  shows "filter_data pd engine T (Some (pre @ (col, val) # post)) column_for_search query
           exact_match
           = Inr (apply_filter pd W col val)
         \<and> rows (apply_filter pd W col val) = []"
  using assms by (simp add: filter_data_def filter_loop_append df_empty_def)

theorem early_exit_witness:
  "filter_loop Na_stays staff [(''SETOR'', Many [PyStr ''RH''])] = Fallthrough staff_rh
   \<and> \<not> is_empty_filter (Single (PyStr ''Licenca''))
   \<and> ''SIT'' \<in> set (columns staff_rh)
   \<and> rows (apply_filter Na_stays staff_rh ''SIT'' (Single (PyStr ''Licenca''))) = []
   \<and> filter_data Na_stays Map.empty staff
        (Some ([(''SETOR'', Many [PyStr ''RH''])] @ (''SIT'', Single (PyStr ''Licenca''))
                 # [(''SETOR'', Single (PyStr ''TI''))]))
        (Some ''SIT'') (Some ''(ativo'') False
       = Inr \<lparr>columns = [''SETOR'', ''SIT''], rows = []\<rparr>"
proof -
  have h1: "filter_loop Na_stays staff [(''SETOR'', Many [PyStr ''RH''])] = Fallthrough staff_rh"
    by (simp add: staff_def staff_rh_def eval_defs fun_eq_iff)
  have h2: "\<not> is_empty_filter (Single (PyStr ''Licenca''))" by simp
  have h3: "''SIT'' \<in> set (columns staff_rh)" by (simp add: staff_rh_def)
  have h4: "rows (apply_filter Na_stays staff_rh ''SIT'' (Single (PyStr ''Licenca''))) = []"
    by (simp add: staff_rh_def eval_defs)
  have t: "apply_filter Na_stays staff_rh ''SIT'' (Single (PyStr ''Licenca''))
             = \<lparr>columns = [''SETOR'', ''SIT''], rows = []\<rparr>"
    by (simp add: staff_rh_def eval_defs)
  from early_exit [OF h1 h2 h3 h4] h1 h2 h3 h4 t show ?thesis by simp
qed

subsection \<open>C6: the empty filter specification\<close>

text \<open>
  Claim C6: filtering a table with an empty filter specification (the empty dict, or
  \<open>None\<close>) and no search specification returns the table itself: the same columns and
  the same rows with the same cells, in the same order.
\<close>

theorem filter_data_empty_spec:
  "filter_data pd engine T (Some []) None None exact_match = Inr T
   \<and> filter_data pd engine T None None None exact_match = Inr T"
  by (simp add: filter_data_def)

subsection \<open>C7: entries that are skipped\<close>

text \<open>
  Claim C7: an entry whose constraint is \<open>None\<close>, the empty string or an empty
  collection, and an entry whose column is not in the table, can be removed from the
  filter specification without changing what \<open>filter_data\<close> returns, error or table.
\<close>

theorem skipped_entry:
  "is_empty_filter val \<or> col \<notin> set (columns T) \<Longrightarrow>
   filter_data pd engine T (Some (pre @ (col, val) # post)) column_for_search query exact_match =
   filter_data pd engine T (Some (pre @ post)) column_for_search query exact_match"
  by (simp add: filter_data_def filter_loop_skip)

theorem skipped_entry_witness:
  "is_empty_filter (Many [])
   \<and> ''CIDADE'' \<notin> set (columns staff)
   \<and> filter_data Na_stays Map.empty staff
        (Some ([(''SIT'', Many [])] @ (''SIT'', Many []) # [(''SETOR'', Many [PyStr ''RH''])]))
        None None True = Inr staff_rh
   \<and> filter_data Na_stays Map.empty staff
        (Some ([] @ (''CIDADE'', Single (PyStr ''Recife'')) # [(''SETOR'', Many [PyStr ''RH''])]))
        None None True = Inr staff_rh"
proof -
  have h1: "is_empty_filter (Many []) \<or> ''SIT'' \<notin> set (columns staff)" by simp
  have h2: "is_empty_filter (Single (PyStr ''Recife'')) \<or> ''CIDADE'' \<notin> set (columns staff)"
    by (simp add: staff_def)
  have e: "filter_data Na_stays Map.empty staff
        (Some ([(''SIT'', Many [])] @ [(''SETOR'', Many [PyStr ''RH''])]))
        None None True = Inr staff_rh"
    by (simp add: staff_def staff_rh_def eval_defs fun_eq_iff)
  from skipped_entry [OF h1, of Na_stays Map.empty "[(''SIT'', Many [])]"
      "[(''SETOR'', Many [PyStr ''RH''])]" None None True]
    skipped_entry [OF h2, of Na_stays Map.empty "[]" "[(''SETOR'', Many [PyStr ''RH''])]" None None True]
    e staff_filtered_rh [of Na_stays] h2
  show ?thesis by simp
qed

subsection \<open>C8: filtering again by a superset\<close>

text \<open>
  The claim is stated for every constraint set \<open>S\<close>. An empty collection is no
  constraint: filtering the staff table by \<open>{SETOR: []}\<close> returns all three rows, and
  filtering that result by the superset \<open>["XX"]\<close> returns none of them.
\<close>

theorem refilter_after_empty_constraint:
  "filter_data Na_stays Map.empty staff (Some [(''SETOR'', Many [])]) None None True = Inr staff
   \<and> filter_data Na_stays Map.empty staff (Some [(''SETOR'', Many [PyStr ''XX''])]) None None True
       = Inr \<lparr>columns = [''SETOR'', ''SIT''], rows = []\<rparr>
   \<and> filter_data Na_as_text Map.empty staff (Some [(''SETOR'', Many [])]) None None True = Inr staff
   \<and> filter_data Na_as_text Map.empty staff (Some [(''SETOR'', Many [PyStr ''XX''])]) None None True
       = Inr \<lparr>columns = [''SETOR'', ''SIT''], rows = []\<rparr>
   \<and> length (rows staff) = 3"
  by (simp add: staff_def eval_defs fun_eq_iff)

text \<open>
  Claim C8, as amended: for a collection \<open>S\<close> that is not empty and a collection \<open>S'\<close>
  that has every value of \<open>S\<close>, filtering a table by \<open>{c: S}\<close> returns a table, and
  filtering that table by \<open>{c: S'}\<close> returns it unchanged.
\<close>

theorem refilter_superset:
  assumes "S \<noteq> []" and "set S \<subseteq> set S'"
  shows "\<exists>T1. filter_data pd engine T (Some [(col, Many S)]) None None exact_match = Inr T1
             \<and> filter_data pd engine' T1 (Some [(col, Many S')]) None None exact_match' = Inr T1"
proof (cases "col \<in> set (columns T)")
  case False
  then show ?thesis by (simp add: filter_data_def)
next
  case True
  from assms have ne: "S' \<noteq> []" by auto
  have 1: "filter_data pd engine T (Some [(col, Many S)]) None None exact_match
             = Inr (apply_filter pd T col (Many S))"
    using True assms(1) by (simp add: single_entry)
  have "col \<in> set (columns (apply_filter pd T col (Many S)))"
    using True by (simp add: columns_apply_filter)
  then have "filter_data pd engine' (apply_filter pd T col (Many S)) (Some [(col, Many S')])
               None None exact_match'
             = Inr (apply_filter pd (apply_filter pd T col (Many S)) col (Many S'))"
    using ne by (simp add: single_entry)
  with 1 apply_filter_again [OF assms(2)] show ?thesis by simp
qed

theorem refilter_superset_witness:
  "[PyStr ''RH''] \<noteq> []
   \<and> set [PyStr ''RH''] \<subseteq> set [PyStr ''TI'', PyStr ''RH'']
   \<and> (\<exists>T1. filter_data Na_stays Map.empty staff (Some [(''SETOR'', Many [PyStr ''RH''])])
              None None True = Inr T1
           \<and> filter_data Na_stays Map.empty T1
               (Some [(''SETOR'', Many [PyStr ''TI'', PyStr ''RH''])]) None None True
               = Inr T1)"
proof -
  have h1: "[PyStr ''RH''] \<noteq> []" by simp
  have h2: "set [PyStr ''RH''] \<subseteq> set [PyStr ''TI'', PyStr ''RH'']" by simp
  from refilter_superset [OF h1 h2] h1 h2 show ?thesis by blast
qed

subsection \<open>C9: row order\<close>

text \<open>
  The claim says that every kept row appears in the input. The rows returned carry
  the lowercase text in the normalised columns: searching \<open>sil\<close> in the column \<open>NOME\<close>
  returns the row of \<open>brasil\<close>, which is not a row of the input, whatever \<open>astype(str)\<close>
  does with missing values.
\<close>

theorem result_rows_not_subsequence:
  "filter_data Na_stays Map.empty places (Some []) (Some ''NOME'') (Some ''sil'') False
     = Inr \<lparr>columns = [''NOME''], rows = [row_of [(''NOME'', Txt ''brasil'')]]\<rparr>
   \<and> filter_data Na_as_text Map.empty places (Some []) (Some ''NOME'') (Some ''sil'') False
     = Inr \<lparr>columns = [''NOME''], rows = [row_of [(''NOME'', Txt ''brasil'')]]\<rparr>
   \<and> \<not> subseq [row_of [(''NOME'', Txt ''brasil'')]] (rows places)"
  by (simp add: places_def eval_defs fun_eq_iff subseq_singleton_left)

text \<open>
  Claim C9, as amended: whenever \<open>filter_data\<close> returns a table, it has the columns
  of the input, and its rows are, in order, the rows of a subsequence of the input
  rows (no row is duplicated or reordered), each with the cells of the normalised
  columns replaced as line 79 replaces them and every other cell unchanged.
\<close>

theorem rows_in_input_order:
  assumes "filter_data pd engine T filtros column_for_search query exact_match = Inr out"
  shows "columns out = columns T \<and>
     (\<exists>sub. subseq sub (rows T) \<and>
        rows out
          = map (normalise_row pd (normalised_columns T filtros column_for_search query)) sub)"
  using assms by (rule filter_data_shape)

text \<open>
  The theorem on the staff table: the two rows returned are the first and the third
  row of the input, with \<open>SETOR\<close> in lowercase.
\<close>

theorem rows_in_input_order_witness:
  "filter_data Na_stays Map.empty staff (Some [(''SETOR'', Many [PyStr ''RH''])]) None None True
     = Inr staff_rh
   \<and> columns staff_rh = columns staff
   \<and> (\<exists>sub. subseq sub (rows staff) \<and>
        rows staff_rh
          = map (normalise_row Na_stays
                   (normalised_columns staff (Some [(''SETOR'', Many [PyStr ''RH''])]) None None))
              sub)"
  using rows_in_input_order [OF staff_filtered_rh [of Na_stays]] staff_filtered_rh [of Na_stays]
  by blast

subsection \<open>C10: an empty query\<close>

text \<open>
  Claim C10: with a search column and a query that is \<open>None\<close> or the empty string,
  \<open>filter_data\<close> returns what it returns with no search specification at all, whatever
  the match mode is; so no EXACT search for the empty string can be made.
\<close>

theorem empty_query_disables_search:
  "filter_data pd engine T fs (Some c) None x = filter_data pd engine T fs None None x'
   \<and> filter_data pd engine T fs (Some c) (Some []) x = filter_data pd engine T fs None None x'"
  by (simp add: filter_data_def split: loop_result.splits)

end
